theory Spec2Isabelle
  imports Main "HOL-Library.Word"
begin

unbundle bit_operations_syntax

section \<open>Data model of mgmt/share\_config.c\<close>

type_synonym u16 = "16 word"
type_synonym u32 = "32 word"
type_synonym u64 = "64 word"

text \<open>
  A C string (\<open>char *\<close>) is modelled by the characters before its terminating NUL; a pointer
  that may be NULL is an \<open>option\<close>. \<open>struct ksmbd_share_config\<close> is declared in
  share\_config.h; the record has the fields share\_config.c reads and writes. The
  \<open>veto_list\<close> is the kernel list headed in the share, first element first; each
  \<open>struct ksmbd_veto_pattern\<close> is its owned \<open>pattern\<close> string. \<open>refcount\<close> is an
  \<open>atomic_t\<close>, a 32-bit counter that wraps.
\<close>

record ksmbd_share_config =
  name :: "string option"
  path :: "string option"
  path_sz :: nat
  flags :: u32
  veto_list :: "string list"
  vfs_path :: "nat option"
  refcount :: u32
  create_mask :: u16
  directory_mask :: u16
  force_create_mode :: u16
  force_directory_mode :: u16
  force_uid :: u16
  force_gid :: u16

definition SHARE_INVALID_UID :: u16 where
  "SHARE_INVALID_UID = - 1"

definition SHARE_INVALID_GID :: u16 where
  "SHARE_INVALID_GID = - 1"

section \<open>Credential override\<close>

text \<open>
  \<open>user_uid\<close> and \<open>user_gid\<close> (user\_config.h) read the uid and gid of the session's user;
  they are the fields of the record. \<open>struct cred\<close> keeps the three fields the function
  writes.
\<close>

record ksmbd_user =
  user_uid :: u32
  user_gid :: u32

record ksmbd_session =
  user :: ksmbd_user

record cred =
  fsuid :: u32
  fsgid :: u32
  cap_effective :: u64

text \<open>
  What the kernel provides to \<open>ksmbd_override_fsids\<close>: the uid and gid mappings of the
  current user namespace, the capability mask operation, and the result of
  \<open>prepare_kernel_cred(NULL)\<close> (a copy of the kernel's own initial credentials, or NULL when
  the allocation fails). \<open>GLOBAL_ROOT_UID\<close> is kuid 0.
\<close>

record kernel_cred_ops =
  make_kuid :: "u32 \<Rightarrow> u32"
  make_kgid :: "u32 \<Rightarrow> u32"
  cap_drop_fs_set :: "u64 \<Rightarrow> u64"
  prepare_kernel_cred :: "cred option"

definition GLOBAL_ROOT_UID :: u32 where
  "GLOBAL_ROOT_UID = 0"

definition ENOMEM :: int where
  "ENOMEM = 12"

datatype 'a err_ptr = ERR_PTR int | PTR 'a

text \<open>
  \<open>ksmbd_override_fsids\<close>: the state is the credential current for the task. The result is
  the returned pointer (the credential that was current before, or \<open>ERR_PTR(-ENOMEM)\<close>)
  and the credential current afterwards (\<open>override_creds\<close> installs the new one).
\<close>

definition ksmbd_override_fsids ::
  "kernel_cred_ops \<Rightarrow> cred \<Rightarrow> ksmbd_session \<Rightarrow> ksmbd_share_config \<Rightarrow> cred err_ptr \<times> cred" where
  "ksmbd_override_fsids k current sess share =
     (let uid = user_uid (user sess);
          gid = user_gid (user sess);
          uid = (if force_uid share \<noteq> SHARE_INVALID_UID then ucast (force_uid share) else uid);
          gid = (if force_gid share \<noteq> SHARE_INVALID_GID then ucast (force_gid share) else gid)
      in case prepare_kernel_cred k of
           None \<Rightarrow> (ERR_PTR (- ENOMEM), current)
         | Some c0 \<Rightarrow>
             let c1 = c0\<lparr>fsuid := make_kuid k uid\<rparr>;
                 c2 = c1\<lparr>fsgid := make_kgid k gid\<rparr>;
                 c3 = (if fsuid c2 \<noteq> GLOBAL_ROOT_UID
                       then c2\<lparr>cap_effective := cap_drop_fs_set k (cap_effective c2)\<rparr>
                       else c2)
             in (PTR current, c3))"

section \<open>Veto list\<close>

text \<open>
  \<open>ksmbd_share_veto_filename\<close> walks \<open>share->veto_list\<close> from its head with
  \<open>list_for_each_entry\<close> and returns at the first pattern that \<open>match_wildcard\<close> accepts.
  \<open>match_wildcard\<close> is the kernel's (lib/parser.c), a parameter here. The walk yields the
  returned value and, as its only effect, the patterns handed to \<open>match_wildcard\<close>, in
  call order.
\<close>

fun veto_list_for_each_entry ::
  "(string \<Rightarrow> string \<Rightarrow> bool) \<Rightarrow> string list \<Rightarrow> string \<Rightarrow> bool \<times> string list" where
  "veto_list_for_each_entry match_wildcard [] filename = (False, [])"
| "veto_list_for_each_entry match_wildcard (p # ps) filename =
     (if match_wildcard p filename then (True, [p])
      else (fst (veto_list_for_each_entry match_wildcard ps filename),
            p # snd (veto_list_for_each_entry match_wildcard ps filename)))"

definition ksmbd_share_veto_filename ::
  "(string \<Rightarrow> string \<Rightarrow> bool) \<Rightarrow> ksmbd_share_config \<Rightarrow> string \<Rightarrow> bool" where
  "ksmbd_share_veto_filename match_wildcard share filename =
     fst (veto_list_for_each_entry match_wildcard (veto_list share) filename)"

definition veto_filename_calls ::
  "(string \<Rightarrow> string \<Rightarrow> bool) \<Rightarrow> ksmbd_share_config \<Rightarrow> string \<Rightarrow> string list" where
  "veto_filename_calls match_wildcard share filename =
     snd (veto_list_for_each_entry match_wildcard (veto_list share) filename)"

section \<open>Parsing the veto buffer\<close>

text \<open>
  What can go wrong below the level of return values: a read that leaves the modelled
  buffer, a NULL string handed to \<open>strcmp\<close>, the use of a freed share.
\<close>

datatype fault = ReadPastBuffer | NullPointer | UseAfterFree

definition NUL :: char where
  "NUL = CHR 0x00"

text \<open>
  \<open>strlen\<close> on a region of bytes: the number of bytes before the first NUL; \<open>None\<close> when
  the region has no NUL, where the C function reads on past it. \<open>kstrdup\<close> copies those
  bytes.
\<close>

definition strlen :: "char list \<Rightarrow> nat option" where
  "strlen buf = (if NUL \<in> set buf then Some (length (takeWhile (\<lambda>c. c \<noteq> NUL) buf)) else None)"

text \<open>
  \<open>parse_veto_list\<close>, lines 97 to 130. Memory allocation is driven by an oracle
  \<open>ok\<close>: the request number \<open>n\<close> (counted over the whole run) succeeds iff \<open>ok n\<close>. The
  loop is a recursion on the remaining bytes (the pointer \<open>veto_list\<close> of the source,
  \<open>veto_buf\<close> here, the share's field having the name) and the remaining size
  \<open>veto_list_sz\<close>; it returns the code, the share and the number of requests made.
  \<open>list_add\<close> inserts the new entry right after the list head, in front of the entries
  already there. The sizes are C \<open>int\<close>s; the buffer is an IPC message, far shorter than
  \<open>2^31\<close> bytes, so they are integers here.
\<close>

function parse_veto_loop ::
  "(nat \<Rightarrow> bool) \<Rightarrow> nat \<Rightarrow> ksmbd_share_config \<Rightarrow> char list \<Rightarrow> int
     \<Rightarrow> fault + (int \<times> ksmbd_share_config \<times> nat)" where
  "parse_veto_loop ok n share veto_buf veto_list_sz =
     (if veto_list_sz > 0 then
        (if \<not> ok n then Inr (- ENOMEM, share, n + 1)
         else case strlen veto_buf of
                None \<Rightarrow> Inl ReadPastBuffer
              | Some sz \<Rightarrow>
                  if sz = 0 then Inr (0, share, n + 1)
                  else if \<not> ok (n + 1) then Inr (- ENOMEM, share, n + 2)
                  else parse_veto_loop ok (n + 2)
                         (share\<lparr>veto_list := take sz veto_buf # veto_list share\<rparr>)
                         (drop (sz + 1) veto_buf) (veto_list_sz - (int sz + 1)))
      else Inr (0, share, n))"
  by pat_completeness auto
termination
  by (relation "measure (\<lambda>(ok, n, share, veto_buf, veto_list_sz). nat veto_list_sz)") auto

declare parse_veto_loop.simps [simp del]

definition parse_veto_list ::
  "(nat \<Rightarrow> bool) \<Rightarrow> nat \<Rightarrow> ksmbd_share_config \<Rightarrow> char list \<Rightarrow> int
     \<Rightarrow> fault + (int \<times> ksmbd_share_config \<times> nat)" where
  "parse_veto_list ok n share veto_buf veto_list_sz =
     (if veto_list_sz = 0 then Inr (0, share, n)
      else parse_veto_loop ok n share veto_buf veto_list_sz)"

section \<open>The share table\<close>

text \<open>
  \<open>struct ksmbd_share_config_response\<close> and the macros \<open>KSMBD_SHARE_CONFIG_PATH\<close> and
  \<open>KSMBD_SHARE_CONFIG_VETO_LIST\<close> are declared in ksmbd\_server.h. The record holds the
  fields the source reads, \<open>veto_list_sz\<close> as the \<open>int\<close> that \<open>parse_veto_list\<close> receives,
  and what the two macros point to: the C string of the path and the bytes readable from
  the start of the veto list.
\<close>

record ksmbd_share_config_response =
  resp_flags :: u32
  resp_create_mask :: u16
  resp_directory_mask :: u16
  resp_force_create_mode :: u16
  resp_force_directory_mode :: u16
  resp_force_uid :: u16
  resp_force_gid :: u16
  resp_veto_list_sz :: int
  KSMBD_SHARE_CONFIG_PATH :: string
  KSMBD_SHARE_CONFIG_VETO_LIST :: "char list"

text \<open>
  What the file takes from outside: the two flag constants (ksmbd\_server.h), the kernel's
  \<open>jhash\<close> and \<open>hash_min\<close> (the bucket of a key in the 8-bucket \<open>shares_table\<close>), the IPC
  request to the configuration daemon (NULL when there is no answer), \<open>kern_path\<close> (its
  return code and the \<open>struct path\<close> it fills when the code is 0), the allocation oracle,
  the contents of the memory \<open>ksmbd_alloc\<close> hands out for a share, and \<open>tolower\<close>.
\<close>

record ksmbd_env =
  KSMBD_SHARE_FLAG_INVALID :: u32
  KSMBD_SHARE_FLAG_PIPE :: u32
  jhash :: "string \<Rightarrow> nat \<Rightarrow> u32 \<Rightarrow> u32"
  hash_min :: "u32 \<Rightarrow> nat"
  ksmbd_ipc_share_config_request :: "string \<Rightarrow> ksmbd_share_config_response option"
  kern_path :: "string \<Rightarrow> int \<times> nat"
  alloc_ok :: "nat \<Rightarrow> bool"
  ksmbd_alloc_share :: ksmbd_share_config
  tolower :: "char \<Rightarrow> char"

text \<open>
  The state: the share structures that are allocated, by address; the buckets of
  \<open>shares_table\<close>, each the addresses of its chain from the head; the number of allocation
  requests made so far; the \<open>free_work\<close> items scheduled and not yet run; the \<open>struct path\<close>
  values released with \<open>path_put\<close>. The address of a share is the number of the request
  that allocated it, so no address is used twice.
\<close>

record ksmbd_state =
  heap :: "nat \<Rightarrow> ksmbd_share_config option"
  shares_table :: "nat \<Rightarrow> nat list"
  allocs :: nat
  scheduled_work :: "nat list"
  path_puts :: "nat option list"

definition share_name_hash :: "ksmbd_env \<Rightarrow> string \<Rightarrow> u32" where
  "share_name_hash e nm = jhash e nm (length nm) 0"

text \<open>\<open>kill_share\<close>, lines 39 to 57: frees the veto entries, the strings and the share.\<close>

definition kill_share :: "ksmbd_state \<Rightarrow> nat \<Rightarrow> fault + ksmbd_state" where
  "kill_share s a =
     (case heap s a of
        None \<Rightarrow> Inl UseAfterFree
      | Some share \<Rightarrow>
          Inr (s\<lparr>path_puts := (if path share \<noteq> None then path_puts s @ [vfs_path share]
                                else path_puts s),
                 heap := (heap s)(a := None)\<rparr>))"


text \<open>\<open>hash_add\<close> puts a node at the head of its bucket; \<open>hash_del\<close> unlinks it.\<close>

definition hash_add :: "ksmbd_env \<Rightarrow> ksmbd_state \<Rightarrow> nat \<Rightarrow> u32 \<Rightarrow> ksmbd_state" where
  "hash_add e s a key =
     s\<lparr>shares_table := (shares_table s)(hash_min e key := a # shares_table s (hash_min e key))\<rparr>"



text \<open>
  \<open>__get_share_config\<close>, lines 77 to 83. \<open>atomic_inc_not_zero\<close> adds one to the counter
  unless it is zero, and tells whether it did.
\<close>

definition get_share_config :: "ksmbd_state \<Rightarrow> nat \<Rightarrow> fault + (nat option \<times> ksmbd_state)" where
  "get_share_config s a =
     (case heap s a of
        None \<Rightarrow> Inl UseAfterFree
      | Some share \<Rightarrow>
          if refcount share \<noteq> 0
          then Inr (Some a, s\<lparr>heap := (heap s)(a := Some (share\<lparr>refcount := refcount share + 1\<rparr>))\<rparr>)
          else Inr (None, s))"

text \<open>
  \<open>__share_lookup\<close>, lines 85 to 95: \<open>hash_for_each_possible\<close> walks the bucket of the
  key; \<open>strcmp\<close> reads both strings.
\<close>

fun share_lookup_chain ::
  "(nat \<Rightarrow> ksmbd_share_config option) \<Rightarrow> string \<Rightarrow> nat list \<Rightarrow> fault + nat option" where
  "share_lookup_chain h nm [] = Inr None"
| "share_lookup_chain h nm (a # as) =
     (case h a of
        None \<Rightarrow> Inl UseAfterFree
      | Some share \<Rightarrow>
          (case name share of
             None \<Rightarrow> Inl NullPointer
           | Some n \<Rightarrow> if nm = n then Inr (Some a) else share_lookup_chain h nm as))"

definition share_lookup :: "ksmbd_env \<Rightarrow> ksmbd_state \<Rightarrow> string \<Rightarrow> fault + nat option" where
  "share_lookup e s nm =
     (let key = share_name_hash e nm
      in share_lookup_chain (heap s) nm (shares_table s (hash_min e key)))"

text \<open>
  Modelled from the spec: \<open>test_share_config_flag\<close>, an inline function of the header
  share\_config.h, tests a capability bit of the share's \<open>flags\<close> bit set.
\<close>

definition test_share_config_flag :: "ksmbd_share_config \<Rightarrow> u32 \<Rightarrow> bool" where
  "test_share_config_flag share flag = (flags share AND flag \<noteq> 0)"

text \<open>
  \<open>share_config_request\<close>, lines 132 to 202, in two parts. The first, lines 143 to 185,
  builds the share from a response, with no lock held. The structure under construction is
  private to the caller: it is a value, written to the heap at its address \<open>a\<close> when the
  part ends (and before \<open>kill_share\<close> frees it). The result is the pointer \<open>share\<close> at
  line 186, NULL after a \<open>goto out\<close>.
\<close>

definition share_config_build ::
  "ksmbd_env \<Rightarrow> ksmbd_state \<Rightarrow> string \<Rightarrow> ksmbd_share_config_response
     \<Rightarrow> fault + (nat option \<times> ksmbd_state)" where
  "share_config_build e s nm resp =
     (if resp_flags resp = KSMBD_SHARE_FLAG_INVALID e then Inr (None, s)
      else if \<not> alloc_ok e (allocs s) then Inr (None, s\<lparr>allocs := allocs s + 1\<rparr>)
      else
        let a = allocs s;
            share = ksmbd_alloc_share e;
            share = share\<lparr>flags := resp_flags resp\<rparr>;
            share = share\<lparr>refcount := 1\<rparr>;
            share = share\<lparr>veto_list := []\<rparr>;
            share = share\<lparr>name := (if alloc_ok e (a + 1) then Some nm else None)\<rparr>
        in if \<not> test_share_config_flag share (KSMBD_SHARE_FLAG_PIPE e) then
             let share = share\<lparr>path := (if alloc_ok e (a + 2)
                                          then Some (KSMBD_SHARE_CONFIG_PATH resp) else None)\<rparr>;
                 share = (case path share of
                            Some p \<Rightarrow> share\<lparr>path_sz := length p\<rparr>
                          | None \<Rightarrow> share);
                 share = share\<lparr>create_mask := resp_create_mask resp\<rparr>;
                 share = share\<lparr>directory_mask := resp_directory_mask resp\<rparr>;
                 share = share\<lparr>force_create_mode := resp_force_create_mode resp\<rparr>;
                 share = share\<lparr>force_directory_mode := resp_force_directory_mode resp\<rparr>;
                 share = share\<lparr>force_uid := resp_force_uid resp\<rparr>;
                 share = share\<lparr>force_gid := resp_force_gid resp\<rparr>
             in case parse_veto_list (alloc_ok e) (a + 3) share
                       (KSMBD_SHARE_CONFIG_VETO_LIST resp) (resp_veto_list_sz resp) of
                  Inl f \<Rightarrow> Inl f
                | Inr (ret, share, n) \<Rightarrow>
                    let (ret, share) =
                          (case path share of
                             Some p \<Rightarrow>
                               if ret = 0 then
                                 (let ret = fst (kern_path e p)
                                  in if ret \<noteq> 0 then (ret, share\<lparr>path := None\<rparr>)
                                     else (ret, share\<lparr>vfs_path := Some (snd (kern_path e p))\<rparr>))
                               else (ret, share)
                           | None \<Rightarrow> (ret, share))
                    in if ret \<noteq> 0 \<or> name share = None then
                         (case kill_share (s\<lparr>allocs := n, heap := (heap s)(a := Some share)\<rparr>) a of
                            Inl f \<Rightarrow> Inl f
                          | Inr s' \<Rightarrow> Inr (None, s'))
                       else Inr (Some a, s\<lparr>allocs := n, heap := (heap s)(a := Some share)\<rparr>)
           else Inr (Some a, s\<lparr>allocs := a + 2, heap := (heap s)(a := Some share)\<rparr>))"

text \<open>
  The second part, lines 187 to 197, runs under the write lock of the table: the share
  built at \<open>a\<close> is hashed, or killed in favour of the entry the lookup found.
\<close>

definition share_config_insert ::
  "ksmbd_env \<Rightarrow> ksmbd_state \<Rightarrow> string \<Rightarrow> nat \<Rightarrow> fault + (nat option \<times> ksmbd_state)" where
  "share_config_insert e s nm a =
     (case share_lookup e s nm of
        Inl f \<Rightarrow> Inl f
      | Inr lookup \<Rightarrow>
          (case (case lookup of
                   Some l \<Rightarrow> get_share_config s l
                 | None \<Rightarrow> Inr (None, s)) of
             Inl f \<Rightarrow> Inl f
           | Inr (lookup, s) \<Rightarrow>
               (case lookup of
                  None \<Rightarrow> Inr (Some a, hash_add e s a (share_name_hash e nm))
                | Some l \<Rightarrow>
                    (case kill_share s a of
                       Inl f \<Rightarrow> Inl f
                     | Inr s \<Rightarrow> Inr (Some l, s)))))"

definition share_config_request ::
  "ksmbd_env \<Rightarrow> ksmbd_state \<Rightarrow> string \<Rightarrow> fault + (nat option \<times> ksmbd_state)" where
  "share_config_request e s nm =
     (case ksmbd_ipc_share_config_request e nm of
        None \<Rightarrow> Inr (None, s)
      | Some resp \<Rightarrow>
          (case share_config_build e s nm resp of
             Inl f \<Rightarrow> Inl f
           | Inr (None, s) \<Rightarrow> Inr (None, s)
           | Inr (Some a, s) \<Rightarrow> share_config_insert e s nm a))"

text \<open>\<open>strtolower\<close>, lines 204 to 210, on the characters of the caller's buffer.\<close>

fun strtolower :: "(char \<Rightarrow> char) \<Rightarrow> string \<Rightarrow> string" where
  "strtolower lower [] = []"
| "strtolower lower (c # share_name) = lower c # strtolower lower share_name"

text \<open>
  \<open>ksmbd_share_config_get\<close>, lines 212 to 227. The result is the returned pointer, the
  state, and the contents of the caller's \<open>name\<close> buffer when the function returns.
\<close>

definition ksmbd_share_config_get ::
  "ksmbd_env \<Rightarrow> ksmbd_state \<Rightarrow> string \<Rightarrow> fault + (nat option \<times> ksmbd_state \<times> string)" where
  "ksmbd_share_config_get e s nm =
     (let nm = strtolower (tolower e) nm
      in case share_lookup e s nm of
           Inl f \<Rightarrow> Inl f
         | Inr share \<Rightarrow>
             (case (case share of
                      Some l \<Rightarrow> get_share_config s l
                    | None \<Rightarrow> Inr (None, s)) of
                Inl f \<Rightarrow> Inl f
              | Inr (Some l, s) \<Rightarrow> Inr (Some l, s, nm)
              | Inr (None, s) \<Rightarrow>
                  (case share_config_request e s nm of
                     Inl f \<Rightarrow> Inl f
                   | Inr (r, s) \<Rightarrow> Inr (r, s, nm))))"

section \<open>The veto buffer as the specification describes it\<close>

text \<open>
  The buffer holds NUL-terminated pattern strings packed contiguously.
\<close>

definition packed_patterns :: "string list \<Rightarrow> char list" where
  "packed_patterns pats = concat (map (\<lambda>p. p @ [NUL]) pats)"

text \<open>
  The strings a parse consumes according to the specification: one at a time, advancing by
  the length plus one, until the remaining length reaches zero or a zero-length string is
  met.
\<close>

fun spec_consumed_patterns :: "string list \<Rightarrow> int \<Rightarrow> string list" where
  "spec_consumed_patterns [] remaining = []"
| "spec_consumed_patterns (p # ps) remaining =
     (if remaining > 0 \<and> p \<noteq> []
      then p # spec_consumed_patterns ps (remaining - (int (length p) + 1)) else [])"

section \<open>Teardown and release\<close>






section \<open>Concurrent use of the table\<close>






text \<open>
  \<open>get_step\<close>: \<open>N\<close> callers, each running \<open>ksmbd_share_config_get\<close> once for the same
  lower-cased name and nothing else. A caller is idle, has missed in the first lookup, has
  built a share at an address, or has returned with a pointer. Its steps are the atomic
  pieces of \<open>ksmbd_share_config_get\<close>: the lookup under the read lock (lines 218 to 222),
  the request and construction (lines 139 to 185), the second lookup under the write lock
  (lines 187 to 197).
\<close>

datatype get_pc = Idle | Missed | Built nat | Returned "nat option"

inductive get_step ::
  "ksmbd_env \<Rightarrow> string \<Rightarrow> nat \<Rightarrow> ksmbd_state \<times> (nat \<Rightarrow> get_pc) \<Rightarrow> ksmbd_state \<times> (nat \<Rightarrow> get_pc) \<Rightarrow> bool"
  for e :: ksmbd_env and nm :: string and N :: nat where
  get_lookup:
    "t < N \<Longrightarrow> T t = Idle \<Longrightarrow> share_lookup e s nm = Inr lk
       \<Longrightarrow> (case lk of Some l \<Rightarrow> get_share_config s l | None \<Rightarrow> Inr (None, s)) = Inr (r, s')
       \<Longrightarrow> get_step e nm N (s, T)
             (s', T(t := (case r of Some l \<Rightarrow> Returned (Some l) | None \<Rightarrow> Missed)))"
| get_unknown:
    "T t = Missed \<Longrightarrow> ksmbd_ipc_share_config_request e nm = None
       \<Longrightarrow> get_step e nm N (s, T) (s, T(t := Returned None))"
| get_build:
    "T t = Missed \<Longrightarrow> ksmbd_ipc_share_config_request e nm = Some resp
       \<Longrightarrow> share_config_build e s nm resp = Inr (r, s')
       \<Longrightarrow> get_step e nm N (s, T)
             (s', T(t := (case r of Some a \<Rightarrow> Built a | None \<Rightarrow> Returned None)))"
| get_insert:
    "T t = Built a \<Longrightarrow> share_config_insert e s nm a = Inr (r, s')
       \<Longrightarrow> get_step e nm N (s, T) (s', T(t := Returned r))"




section \<open>Example inputs\<close>

definition ex_cred_ops :: kernel_cred_ops where
  "ex_cred_ops = \<lparr>make_kuid = (\<lambda>u. u), make_kgid = (\<lambda>g. g),
     cap_drop_fs_set = (\<lambda>c. c AND NOT 0x10800001F),
     prepare_kernel_cred = Some \<lparr>fsuid = 0, fsgid = 0, cap_effective = 0x1FFFFFFFFFF\<rparr>\<rparr>"

definition ex_root_session :: ksmbd_session where
  "ex_root_session = \<lparr>user = \<lparr>user_uid = 0, user_gid = 0\<rparr>\<rparr>"

definition ex_forced_share :: ksmbd_share_config where
  "ex_forced_share = \<lparr>name = Some ''data'', path = Some ''/srv/data'', path_sz = 9, flags = 1,
     veto_list = [], vfs_path = Some 0, refcount = 1, create_mask = 0x1E4,
     directory_mask = 0x1ED, force_create_mode = 0, force_directory_mode = 0,
     force_uid = 1000, force_gid = 1000\<rparr>"

text \<open>A glob matcher with \<open>*\<close> and \<open>?\<close>, to run the veto filter on concrete names.\<close>

fun ex_match_wildcard :: "string \<Rightarrow> string \<Rightarrow> bool" where
  "ex_match_wildcard [] s = (s = [])"
| "ex_match_wildcard (p # ps) [] = (p = CHR ''*'' \<and> ex_match_wildcard ps [])"
| "ex_match_wildcard (p # ps) (c # cs) =
     (if p = CHR ''*'' then ex_match_wildcard ps (c # cs) \<or> ex_match_wildcard (p # ps) cs
      else (p = CHR ''?'' \<or> p = c) \<and> ex_match_wildcard ps cs)"

definition ex_veto_share :: ksmbd_share_config where
  "ex_veto_share = ex_forced_share\<lparr>veto_list := [''*.tmp'', ''secret*'']\<rparr>"

definition ex_alloc_all :: "nat \<Rightarrow> bool" where
  "ex_alloc_all = (\<lambda>n. True)"

text \<open>
  An environment to run the share table on: two shares known to the configuration daemon,
  a disk share \<open>data\<close> with two veto patterns and the pipe share \<open>ipc$\<close>; an allocator
  that never fails, and variants of it that fail at one request; an empty table.
\<close>

definition ex_tolower :: "char \<Rightarrow> char" where
  "ex_tolower c =
     (case map_of (zip ''ABCDEFGHIJKLMNOPQRSTUVWXYZ'' ''abcdefghijklmnopqrstuvwxyz'') c of
        Some l \<Rightarrow> l
      | None \<Rightarrow> c)"

definition ex_response :: ksmbd_share_config_response where
  "ex_response = \<lparr>resp_flags = 1, resp_create_mask = 0x1E4, resp_directory_mask = 0x1ED,
     resp_force_create_mode = 0, resp_force_directory_mode = 0,
     resp_force_uid = 0xFFFF, resp_force_gid = 0xFFFF, resp_veto_list_sz = 14,
     KSMBD_SHARE_CONFIG_PATH = ''/srv/data'',
     KSMBD_SHARE_CONFIG_VETO_LIST = packed_patterns [''*.tmp'', ''secret*''] @ ''/srv/data'' @ [NUL]\<rparr>"

definition ex_zero_response :: ksmbd_share_config_response where
  "ex_zero_response = \<lparr>resp_flags = 0, resp_create_mask = 0, resp_directory_mask = 0,
     resp_force_create_mode = 0, resp_force_directory_mode = 0,
     resp_force_uid = 0, resp_force_gid = 0, resp_veto_list_sz = 0,
     KSMBD_SHARE_CONFIG_PATH = [], KSMBD_SHARE_CONFIG_VETO_LIST = []\<rparr>"

definition ex_pipe_response :: ksmbd_share_config_response where
  "ex_pipe_response = ex_response\<lparr>resp_flags := 0x101\<rparr>"

definition ex_zero_share :: ksmbd_share_config where
  "ex_zero_share = \<lparr>name = None, path = None, path_sz = 0, flags = 0,
     veto_list = [], vfs_path = None, refcount = 0, create_mask = 0,
     directory_mask = 0, force_create_mode = 0, force_directory_mode = 0,
     force_uid = 0, force_gid = 0\<rparr>"

definition ex_ipc :: "string \<Rightarrow> ksmbd_share_config_response option" where
  "ex_ipc nm = (if nm = ''data'' then Some ex_response
                else if nm = ''ipc$'' then Some ex_pipe_response else None)"

definition ex_kern_path :: "string \<Rightarrow> int \<times> nat" where
  "ex_kern_path p = (if p = ''/srv/data'' then (0, 42) else (- 2, 0))"

definition ex_kern_path_fails :: "string \<Rightarrow> int \<times> nat" where
  "ex_kern_path_fails p = (- 2, 0)"

definition ex_jhash :: "string \<Rightarrow> nat \<Rightarrow> u32 \<Rightarrow> u32" where
  "ex_jhash k n initval = of_nat n + initval"

definition ex_hash_min :: "u32 \<Rightarrow> nat" where
  "ex_hash_min key = unat (key AND 7)"

definition ex_env :: ksmbd_env where
  "ex_env = \<lparr>KSMBD_SHARE_FLAG_INVALID = 0, KSMBD_SHARE_FLAG_PIPE = 0x100,
     jhash = ex_jhash, hash_min = ex_hash_min,
     ksmbd_ipc_share_config_request = ex_ipc, kern_path = ex_kern_path,
     alloc_ok = ex_alloc_all, ksmbd_alloc_share = ex_zero_share, tolower = ex_tolower\<rparr>"

definition ex_env_nopath :: ksmbd_env where
  "ex_env_nopath = ex_env\<lparr>kern_path := ex_kern_path_fails\<rparr>"

definition ex_state0 :: ksmbd_state where
  "ex_state0 = \<lparr>heap = (\<lambda>a. None), shares_table = (\<lambda>b. []), allocs = 0,
     scheduled_work = [], path_puts = []\<rparr>"

definition ex_alloc_fail_1 :: "nat \<Rightarrow> bool" where
  "ex_alloc_fail_1 n = (n \<noteq> 1)"

definition ex_alloc_fail_3 :: "nat \<Rightarrow> bool" where
  "ex_alloc_fail_3 n = (n \<noteq> 3)"

definition ex_env_noname :: ksmbd_env where
  "ex_env_noname = ex_env\<lparr>alloc_ok := ex_alloc_fail_1\<rparr>"

definition ex_env_noveto :: ksmbd_env where
  "ex_env_noveto = ex_env\<lparr>alloc_ok := ex_alloc_fail_3\<rparr>"

text \<open>A table whose only entry has dropped to a reference count of 0 and is not yet unhashed.\<close>

definition ex_dying_share :: ksmbd_share_config where
  "ex_dying_share = ex_forced_share\<lparr>refcount := 0\<rparr>"

definition ex_state_dying :: ksmbd_state where
  "ex_state_dying = \<lparr>heap = (\<lambda>a. if a = 0 then Some ex_dying_share else None),
     shares_table = (\<lambda>b. if b = 4 then [0] else []), allocs = 7,
     scheduled_work = [], path_puts = []\<rparr>"

text \<open>
  Two callers getting the pipe share \<open>ipc$\<close> at once on an empty table: the states after
  each has built its share, after the first has hashed its own, and after the second has
  found it; and the table after a single caller.
\<close>

definition ex_pipe_share :: ksmbd_share_config where
  "ex_pipe_share = ex_zero_share\<lparr>flags := 0x101, refcount := 1, name := Some ''ipc$''\<rparr>"









text \<open>
  An allocator that fails at the copy of the path, and the tables left behind by a fetch
  of the pipe share whose copy of the name failed and by a fetch of the disk share whose
  copy of the path failed.
\<close>

definition ex_alloc_fail_2 :: "nat \<Rightarrow> bool" where
  "ex_alloc_fail_2 n = (n \<noteq> 2)"

definition ex_env_nopathdup :: ksmbd_env where
  "ex_env_nopathdup = ex_env\<lparr>alloc_ok := ex_alloc_fail_2\<rparr>"

definition ex_state_noname :: ksmbd_state where
  "ex_state_noname = ex_state0\<lparr>allocs := 2,
     heap := (heap ex_state0)(0 := Some (ex_pipe_share\<lparr>name := None\<rparr>)),
     shares_table := (shares_table ex_state0)(4 := [0])\<rparr>"

definition ex_pathless_share :: ksmbd_share_config where
  "ex_pathless_share = ex_zero_share\<lparr>flags := 1, refcount := 1, name := Some ''data'',
     veto_list := [''secret*'', ''*.tmp''], create_mask := 0x1E4, directory_mask := 0x1ED,
     force_uid := 0xFFFF, force_gid := 0xFFFF\<rparr>"

definition ex_state_pathless :: ksmbd_state where
  "ex_state_pathless = ex_state0\<lparr>allocs := 7,
     heap := (heap ex_state0)(0 := Some ex_pathless_share),
     shares_table := (shares_table ex_state0)(4 := [0])\<rparr>"

section \<open>Theorems\<close>

lemmas ex_defs = ex_zero_response_def ex_tolower_def ex_response_def ex_pipe_response_def ex_zero_share_def ex_ipc_def
  ex_kern_path_def ex_kern_path_fails_def ex_jhash_def ex_hash_min_def ex_env_def ex_env_nopath_def
  ex_state0_def ex_alloc_all_def

lemmas run_defs = share_config_request_def share_config_build_def share_config_insert_def
  share_lookup_def share_name_hash_def get_share_config_def kill_share_def hash_add_def
  parse_veto_list_def parse_veto_loop.simps strlen_def NUL_def packed_patterns_def
  test_share_config_flag_def ENOMEM_def Let_def

lemmas ex_defs2 = ex_defs ex_alloc_fail_1_def ex_alloc_fail_3_def ex_env_noname_def ex_env_noveto_def

subsection \<open>Credential override\<close>

text \<open>
  C6: when the credential snapshot can be built, the installed credential has the kuid of
  the session's uid if \<open>force_uid\<close> is the unset sentinel and the kuid of \<open>force_uid\<close>
  otherwise, the same independently for the gid; its effective capabilities are those of
  the kernel's baseline credential with the filesystem set dropped exactly when the
  resulting fsuid is not the root kuid, and untouched otherwise. With both force fields
  unset the identity is the session's own. The previous credential is returned.
\<close>

theorem override_fsids_identity:
  assumes "prepare_kernel_cred k = Some c0"
  shows "fst (ksmbd_override_fsids k cur sess share) = PTR cur
    \<and> fsuid (snd (ksmbd_override_fsids k cur sess share)) =
        make_kuid k (if force_uid share = SHARE_INVALID_UID then user_uid (user sess)
                     else ucast (force_uid share))
    \<and> fsgid (snd (ksmbd_override_fsids k cur sess share)) =
        make_kgid k (if force_gid share = SHARE_INVALID_GID then user_gid (user sess)
                     else ucast (force_gid share))
    \<and> cap_effective (snd (ksmbd_override_fsids k cur sess share)) =
        (if fsuid (snd (ksmbd_override_fsids k cur sess share)) \<noteq> GLOBAL_ROOT_UID
         then cap_drop_fs_set k (cap_effective c0) else cap_effective c0)
    \<and> (force_uid share = SHARE_INVALID_UID \<and> force_gid share = SHARE_INVALID_GID \<longrightarrow>
         fsuid (snd (ksmbd_override_fsids k cur sess share)) = make_kuid k (user_uid (user sess))
       \<and> fsgid (snd (ksmbd_override_fsids k cur sess share)) = make_kgid k (user_gid (user sess)))"
  using assms by (simp add: ksmbd_override_fsids_def Let_def)

theorem override_fsids_identity_witness:
  "prepare_kernel_cred ex_cred_ops = Some \<lparr>fsuid = 0, fsgid = 0, cap_effective = 0x1FFFFFFFFFF\<rparr>
   \<and> fsuid (snd (ksmbd_override_fsids ex_cred_ops \<lparr>fsuid = 0, fsgid = 0, cap_effective = 7\<rparr>
         ex_root_session ex_forced_share)) = 1000
   \<and> fsgid (snd (ksmbd_override_fsids ex_cred_ops \<lparr>fsuid = 0, fsgid = 0, cap_effective = 7\<rparr>
         ex_root_session ex_forced_share)) = 1000
   \<and> cap_effective (snd (ksmbd_override_fsids ex_cred_ops \<lparr>fsuid = 0, fsgid = 0, cap_effective = 7\<rparr>
         ex_root_session ex_forced_share)) = 0x1FFFFFFFFFF AND NOT 0x10800001F"
  using override_fsids_identity [of ex_cred_ops "\<lparr>fsuid = 0, fsgid = 0, cap_effective = 0x1FFFFFFFFFF\<rparr>"
      "\<lparr>fsuid = 0, fsgid = 0, cap_effective = 7\<rparr>" ex_root_session ex_forced_share]
  by (simp add: ex_cred_ops_def ex_root_session_def ex_forced_share_def
      SHARE_INVALID_UID_def SHARE_INVALID_GID_def GLOBAL_ROOT_UID_def)

subsection \<open>Veto filter\<close>

lemma veto_walk_result:
  "fst (veto_list_for_each_entry mw ps f) = (\<exists>p \<in> set ps. mw p f)"
  by (induction ps) auto

lemma veto_walk_calls:
  "snd (veto_list_for_each_entry mw ps f) =
     takeWhile (\<lambda>p. \<not> mw p f) ps @ take 1 (dropWhile (\<lambda>p. \<not> mw p f) ps)"
  by (induction ps) auto

text \<open>
  C8: \<open>ksmbd_share_veto_filename\<close> is true exactly when some pattern of the share's veto
  list matches the file name under \<open>match_wildcard\<close>; the patterns it hands to
  \<open>match_wildcard\<close> are those before the first matching one and that one, so it returns at
  the first match; a share with an empty veto list gives false.
\<close>

theorem veto_filename_iff_some_match:
  "ksmbd_share_veto_filename mw share f = (\<exists>p \<in> set (veto_list share). mw p f)
   \<and> veto_filename_calls mw share f =
       takeWhile (\<lambda>p. \<not> mw p f) (veto_list share)
       @ take 1 (dropWhile (\<lambda>p. \<not> mw p f) (veto_list share))
   \<and> (veto_list share = [] \<longrightarrow> \<not> ksmbd_share_veto_filename mw share f)"
  by (simp add: ksmbd_share_veto_filename_def veto_filename_calls_def
      veto_walk_result veto_walk_calls)

theorem veto_filename_iff_some_match_witness:
  "ksmbd_share_veto_filename ex_match_wildcard ex_veto_share ''a.tmp''
   \<and> ksmbd_share_veto_filename ex_match_wildcard ex_veto_share ''secretfile''
   \<and> \<not> ksmbd_share_veto_filename ex_match_wildcard ex_veto_share ''readme.md''
   \<and> veto_filename_calls ex_match_wildcard ex_veto_share ''a.tmp'' = [''*.tmp'']
   \<and> veto_list ex_forced_share = []
   \<and> \<not> ksmbd_share_veto_filename ex_match_wildcard ex_forced_share ''a.tmp''"
  using veto_filename_iff_some_match [of ex_match_wildcard ex_veto_share "''a.tmp''"]
    veto_filename_iff_some_match [of ex_match_wildcard ex_veto_share "''secretfile''"]
    veto_filename_iff_some_match [of ex_match_wildcard ex_veto_share "''readme.md''"]
    veto_filename_iff_some_match [of ex_match_wildcard ex_forced_share "''a.tmp''"]
  by (simp add: ex_veto_share_def ex_forced_share_def)

subsection \<open>Parsing the veto buffer\<close>

lemma takeWhile_terminated:
  "NUL \<notin> set p \<Longrightarrow> takeWhile (\<lambda>c. c \<noteq> NUL) (p @ NUL # rest) = p"
  by (induction p) auto

lemma strlen_terminated:
  "NUL \<notin> set p \<Longrightarrow> strlen (p @ NUL # rest) = Some (length p)"
  by (simp add: strlen_def takeWhile_terminated)

lemma parse_veto_loop_packed:
  assumes "\<forall>i. ok i" "\<forall>p \<in> set pats. NUL \<notin> set p"
    "tot \<le> int (length (packed_patterns pats)) \<or> [] \<in> set pats"
  shows "\<exists>n'. parse_veto_loop ok n share (packed_patterns pats @ rest) tot =
     Inr (0, share\<lparr>veto_list := rev (spec_consumed_patterns pats tot) @ veto_list share\<rparr>, n')"
  using assms
proof (induction pats arbitrary: n share tot)
  case Nil
  then show ?case by (simp add: parse_veto_loop.simps packed_patterns_def)
next
  case (Cons p ps)
  show ?case
  proof (cases "tot > 0")
    case False
    then show ?thesis by (simp add: parse_veto_loop.simps)
  next
    case True
    have sl: "strlen (packed_patterns (p # ps) @ rest) = Some (length p)"
      using Cons.prems(2) strlen_terminated [of p "packed_patterns ps @ rest"]
      by (simp add: packed_patterns_def)
    show ?thesis
    proof (cases "p = []")
      case True
      with \<open>tot > 0\<close> sl Cons.prems(1) show ?thesis
        by (subst parse_veto_loop.simps) simp
    next
      case False
      have tk: "take (length p) (packed_patterns (p # ps) @ rest) = p"
        by (simp add: packed_patterns_def)
      have dr: "drop (length p + 1) (packed_patterns (p # ps) @ rest) = packed_patterns ps @ rest"
        by (simp add: packed_patterns_def)
      have pre: "tot - (int (length p) + 1) \<le> int (length (packed_patterns ps)) \<or> [] \<in> set ps"
        using Cons.prems(3) False by (auto simp: packed_patterns_def)
      from Cons.IH [OF Cons.prems(1) _ pre, of "n + 2"
          "share\<lparr>veto_list := p # veto_list share\<rparr>"] Cons.prems(2)
      obtain n' where
        "parse_veto_loop ok (n + 2) (share\<lparr>veto_list := p # veto_list share\<rparr>)
           (packed_patterns ps @ rest) (tot - (int (length p) + 1)) =
         Inr (0, share\<lparr>veto_list :=
                  rev (spec_consumed_patterns ps (tot - (int (length p) + 1))) @ p # veto_list share\<rparr>, n')"
        by auto
      with \<open>tot > 0\<close> False sl tk dr Cons.prems(1) show ?thesis
        by (subst parse_veto_loop.simps) simp
    qed
  qed
qed

lemma parse_veto_list_packed:
  assumes "\<forall>i. ok i" "\<forall>p \<in> set pats. NUL \<notin> set p"
    "tot \<le> int (length (packed_patterns pats)) \<or> [] \<in> set pats"
  shows "\<exists>n'. parse_veto_list ok n share (packed_patterns pats @ rest) tot =
     Inr (0, share\<lparr>veto_list := rev (spec_consumed_patterns pats tot) @ veto_list share\<rparr>, n')"
proof (cases "tot = 0")
  case True
  then show ?thesis by (cases pats) (simp_all add: parse_veto_list_def)
next
  case False
  with parse_veto_loop_packed [OF assms, of n share rest] show ?thesis
    by (simp add: parse_veto_list_def)
qed

text \<open>
  C7: when the allocations succeed and the buffer holds the NUL-terminated strings
  \<open>pats\<close> (followed by anything), with the supplied length within them unless one of them
  is empty, \<open>parse_veto_list\<close> returns 0 and has added to the share's list exactly the
  strings the specification says are consumed: one at a time, advancing by the length plus
  one, stopping when the remaining length is used up or at a zero-length string. With a
  length of 0 it returns 0 and leaves the list as it is, whatever the buffer and the
  allocator.
\<close>

theorem parse_veto_list_consumes:
  assumes "\<forall>i. ok i" "\<forall>p \<in> set pats. NUL \<notin> set p"
    "tot \<le> int (length (packed_patterns pats)) \<or> [] \<in> set pats"
  shows "(\<exists>n'. parse_veto_list ok n share (packed_patterns pats @ rest) tot =
            Inr (0, share\<lparr>veto_list := rev (spec_consumed_patterns pats tot) @ veto_list share\<rparr>, n'))
     \<and> set (spec_consumed_patterns pats tot) \<subseteq> set pats
     \<and> parse_veto_list ok2 n share buf 0 = Inr (0, share, n)"
proof -
  have "set (spec_consumed_patterns ps t) \<subseteq> set ps" for ps t
    by (induction ps arbitrary: t) auto
  with parse_veto_list_packed [OF assms, of n share rest] show ?thesis
    by (simp add: parse_veto_list_def)
qed

theorem parse_veto_list_consumes_witness:
  "(\<forall>i. ex_alloc_all i) \<and> NUL \<notin> set ''*.tmp'' \<and> NUL \<notin> set ''secret*''
   \<and> 14 \<le> int (length (packed_patterns [''*.tmp'', ''secret*'']))
   \<and> (\<exists>n'. parse_veto_list ex_alloc_all 0 ex_forced_share
          (packed_patterns [''*.tmp'', ''secret*''] @ ''/srv/data'') 14 =
        Inr (0, ex_forced_share\<lparr>veto_list := [''secret*'', ''*.tmp'']\<rparr>, n'))
   \<and> parse_veto_list ex_alloc_all 0 ex_forced_share ''/srv/data'' 0 = Inr (0, ex_forced_share, 0)"
  using parse_veto_list_consumes [of ex_alloc_all "[''*.tmp'', ''secret*'']" 14 0
      ex_forced_share "''/srv/data''" ex_alloc_all "''/srv/data''"]
  by (simp add: ex_alloc_all_def NUL_def packed_patterns_def ex_forced_share_def)

text \<open>
  C4, as the code has it: \<open>list_add\<close> puts each new entry at the head, so after a parse of
  an empty list the share's list is the consumed patterns in the reverse of their order in
  the buffer; \<open>ksmbd_share_veto_filename\<close> evaluates that list from its head, so the
  pattern parsed last is evaluated first.
\<close>

theorem parse_veto_list_reverses:
  assumes "\<forall>i. ok i" "\<forall>p \<in> set pats. NUL \<notin> set p"
    "tot \<le> int (length (packed_patterns pats)) \<or> [] \<in> set pats"
    "veto_list share = []"
  shows "\<exists>share' n'. parse_veto_list ok n share (packed_patterns pats @ rest) tot = Inr (0, share', n')
     \<and> veto_list share' = rev (spec_consumed_patterns pats tot)
     \<and> veto_filename_calls mw share' f =
         takeWhile (\<lambda>p. \<not> mw p f) (rev (spec_consumed_patterns pats tot))
         @ take 1 (dropWhile (\<lambda>p. \<not> mw p f) (rev (spec_consumed_patterns pats tot)))"
proof -
  from parse_veto_list_packed [OF assms(1-3), of n share rest] obtain n' where
    "parse_veto_list ok n share (packed_patterns pats @ rest) tot =
       Inr (0, share\<lparr>veto_list := rev (spec_consumed_patterns pats tot) @ veto_list share\<rparr>, n')"
    by blast
  with assms(4) show ?thesis
    by (simp add: veto_filename_calls_def veto_walk_calls)
qed

theorem parse_veto_list_reverses_witness:
  "(\<forall>i. ex_alloc_all i) \<and> NUL \<notin> set ''*.tmp'' \<and> NUL \<notin> set ''secret*''
   \<and> 14 \<le> int (length (packed_patterns [''*.tmp'', ''secret*'']))
   \<and> veto_list ex_forced_share = []
   \<and> (\<exists>share' n'. parse_veto_list ex_alloc_all 0 ex_forced_share
          (packed_patterns [''*.tmp'', ''secret*''] @ ''/srv/data'') 14 = Inr (0, share', n')
        \<and> veto_list share' = [''secret*'', ''*.tmp'']
        \<and> veto_filename_calls ex_match_wildcard share' ''readme.md'' = [''secret*'', ''*.tmp''])"
  using parse_veto_list_reverses [of ex_alloc_all "[''*.tmp'', ''secret*'']" 14
      ex_forced_share 0 "''/srv/data''" ex_match_wildcard "''readme.md''"]
  by (simp add: ex_alloc_all_def NUL_def packed_patterns_def ex_forced_share_def)

theorem parse_veto_list_order_counterexample:
  "parse_veto_list ex_alloc_all 0 ex_forced_share (packed_patterns [''a'', ''b'']) 4 =
     Inr (0, ex_forced_share\<lparr>veto_list := [''b'', ''a'']\<rparr>, 4)
   \<and> veto_list (ex_forced_share\<lparr>veto_list := [''b'', ''a'']\<rparr>) \<noteq> [''a'', ''b'']
   \<and> veto_filename_calls ex_match_wildcard (ex_forced_share\<lparr>veto_list := [''b'', ''a'']\<rparr>) ''c''
       = [''b'', ''a'']"
  by (simp add: parse_veto_list_def parse_veto_loop.simps strlen_def NUL_def packed_patterns_def
      ex_alloc_all_def ex_forced_share_def veto_filename_calls_def)

subsection \<open>What a parse can return\<close>

lemma parse_veto_loop_shape:
  "parse_veto_loop ok n share buf sz = Inr (ret, share', n') \<Longrightarrow>
     share' = share\<lparr>veto_list := veto_list share'\<rparr> \<and> (ret = 0 \<or> ret = - ENOMEM)"
proof (induction ok n share buf sz rule: parse_veto_loop.induct)
  case (1 ok n share veto_buf veto_list_sz)
  show ?case
  proof (cases "veto_list_sz > 0 \<and> ok n \<and> (\<exists>l. strlen veto_buf = Some l \<and> l \<noteq> 0) \<and> ok (n + 1)")
    case True
    then obtain l where l: "strlen veto_buf = Some l" "l \<noteq> 0" by blast
    from True l "1.prems" have
      "parse_veto_loop ok (n + 2) (share\<lparr>veto_list := take l veto_buf # veto_list share\<rparr>)
         (drop (l + 1) veto_buf) (veto_list_sz - (int l + 1)) = Inr (ret, share', n')"
      by (subst (asm) parse_veto_loop.simps) simp
    from "1.IH" [OF _ _ l(1) _ _ this] True l
    have "share' = share\<lparr>veto_list := take l veto_buf # veto_list share\<rparr>\<lparr>veto_list := veto_list share'\<rparr>
        \<and> (ret = 0 \<or> ret = - ENOMEM)"
      by simp
    then show ?thesis by simp
  next
    case False
    with "1.prems" show ?thesis
      by (subst (asm) parse_veto_loop.simps) (auto split: if_splits option.splits)
  qed
qed

lemma parse_veto_loop_fault:
  "parse_veto_loop ok n share buf sz = Inl f \<Longrightarrow> f = ReadPastBuffer"
proof (induction ok n share buf sz rule: parse_veto_loop.induct)
  case (1 ok n share veto_buf veto_list_sz)
  show ?case
  proof (cases "veto_list_sz > 0 \<and> ok n \<and> (\<exists>l. strlen veto_buf = Some l \<and> l \<noteq> 0) \<and> ok (n + 1)")
    case True
    then obtain l where l: "strlen veto_buf = Some l" "l \<noteq> 0" by blast
    from True l "1.prems" have
      "parse_veto_loop ok (n + 2) (share\<lparr>veto_list := take l veto_buf # veto_list share\<rparr>)
         (drop (l + 1) veto_buf) (veto_list_sz - (int l + 1)) = Inl f"
      by (subst (asm) parse_veto_loop.simps) simp
    from "1.IH" [OF _ _ l(1) _ _ this] True l show ?thesis by simp
  next
    case False
    with "1.prems" show ?thesis
      by (subst (asm) parse_veto_loop.simps) (auto split: if_splits option.splits)
  qed
qed

lemma parse_veto_list_shape:
  "parse_veto_list ok n share buf sz = Inr (ret, share', n') \<Longrightarrow>
     share' = share\<lparr>veto_list := veto_list share'\<rparr> \<and> (ret = 0 \<or> ret = - ENOMEM)"
  using parse_veto_loop_shape [of ok n share buf sz ret share' n']
  by (auto simp: parse_veto_list_def split: if_splits)

lemma parse_veto_list_fault:
  "parse_veto_list ok n share buf sz = Inl f \<Longrightarrow> f = ReadPastBuffer"
  using parse_veto_loop_fault [of ok n share buf sz f]
  by (auto simp: parse_veto_list_def split: if_splits)

lemma parse_veto_loop_returns:
  assumes "\<forall>p \<in> set pats. NUL \<notin> set p"
    "tot \<le> int (length (packed_patterns pats)) \<or> [] \<in> set pats"
  shows "\<exists>ret sh' n'. parse_veto_loop ok n share (packed_patterns pats @ rest) tot = Inr (ret, sh', n')"
  using assms
proof (induction pats arbitrary: n share tot)
  case Nil
  then show ?case by (simp add: parse_veto_loop.simps packed_patterns_def)
next
  case (Cons p ps)
  have sl: "strlen (packed_patterns (p # ps) @ rest) = Some (length p)"
    using Cons.prems(1) strlen_terminated [of p "packed_patterns ps @ rest"]
    by (simp add: packed_patterns_def)
  show ?case
  proof (cases "tot > 0 \<and> ok n \<and> p \<noteq> [] \<and> ok (n + 1)")
    case False
    with sl show ?thesis
      by (subst parse_veto_loop.simps) auto
  next
    case True
    have dr: "drop (length p + 1) (packed_patterns (p # ps) @ rest) = packed_patterns ps @ rest"
      by (simp add: packed_patterns_def)
    have pre: "tot - (int (length p) + 1) \<le> int (length (packed_patterns ps)) \<or> [] \<in> set ps"
      using Cons.prems(2) True by (auto simp: packed_patterns_def)
    from Cons.IH [OF _ pre, of "n + 2"
        "share\<lparr>veto_list := take (length p) (packed_patterns (p # ps) @ rest) # veto_list share\<rparr>"]
      Cons.prems(1)
    obtain ret sh' n' where
      "parse_veto_loop ok (n + 2)
         (share\<lparr>veto_list := take (length p) (packed_patterns (p # ps) @ rest) # veto_list share\<rparr>)
         (packed_patterns ps @ rest) (tot - (int (length p) + 1)) = Inr (ret, sh', n')"
      by auto
    with True sl dr show ?thesis
      by (subst parse_veto_loop.simps) simp
  qed
qed

lemma parse_veto_loop_enomem:
  assumes "\<forall>p \<in> set pats. NUL \<notin> set p \<and> p \<noteq> []" "\<exists>i < 2 * length pats. \<not> ok (n + i)"
  shows "\<exists>sh' n'. parse_veto_loop ok n share (packed_patterns pats @ rest)
            (int (length (packed_patterns pats))) = Inr (- ENOMEM, sh', n')"
  using assms
proof (induction pats arbitrary: n share)
  case Nil
  then show ?case by simp
next
  case (Cons p ps)
  have sl: "strlen (packed_patterns (p # ps) @ rest) = Some (length p)"
    using Cons.prems(1) strlen_terminated [of p "packed_patterns ps @ rest"]
    by (simp add: packed_patterns_def)
  have pos: "int (length (packed_patterns (p # ps))) > 0" "p \<noteq> []"
    using Cons.prems(1) by (simp_all add: packed_patterns_def)
  show ?case
  proof (cases "ok n \<and> ok (n + 1)")
    case False
    with sl pos show ?thesis
      by (subst parse_veto_loop.simps) auto
  next
    case True
    have dr: "drop (length p + 1) (packed_patterns (p # ps) @ rest) = packed_patterns ps @ rest"
      by (simp add: packed_patterns_def)
    have len: "int (length (packed_patterns (p # ps))) - (int (length p) + 1)
        = int (length (packed_patterns ps))"
      by (simp add: packed_patterns_def)
    from Cons.prems(2) obtain i where i: "i < 2 * length (p # ps)" "\<not> ok (n + i)" by blast
    with True have "i \<ge> 2"
      by (cases i) (auto simp: less_Suc_eq_0_disj)
    then obtain j where j: "i = 2 + j"
      using le_Suc_ex by blast
    with i have "j < 2 * length ps \<and> \<not> ok (n + 2 + j)" by (simp add: ac_simps)
    then have "\<exists>j < 2 * length ps. \<not> ok (n + 2 + j)" by blast
    from Cons.IH [OF _ this,
        of "share\<lparr>veto_list := take (length p) (packed_patterns (p # ps) @ rest) # veto_list share\<rparr>"]
      Cons.prems(1)
    obtain sh' n' where
      "parse_veto_loop ok (n + 2)
         (share\<lparr>veto_list := take (length p) (packed_patterns (p # ps) @ rest) # veto_list share\<rparr>)
         (packed_patterns ps @ rest) (int (length (packed_patterns ps))) = Inr (- ENOMEM, sh', n')"
      by auto
    with True sl dr pos len show ?thesis
      by (subst parse_veto_loop.simps) simp
  qed
qed

lemma build_alloc_failure:
  assumes "resp_flags resp \<noteq> KSMBD_SHARE_FLAG_INVALID e"
    "resp_flags resp AND KSMBD_SHARE_FLAG_PIPE e = 0"
    "alloc_ok e (allocs s)"
    "KSMBD_SHARE_CONFIG_VETO_LIST resp = packed_patterns pats @ rest"
    "\<forall>p \<in> set pats. NUL \<notin> set p \<and> p \<noteq> []"
    "resp_veto_list_sz resp = int (length (packed_patterns pats))"
    "\<not> alloc_ok e (allocs s + 1) \<or> (\<exists>i < 2 * length pats. \<not> alloc_ok e (allocs s + 3 + i))"
  shows "\<exists>s'. share_config_build e s nm resp = Inr (None, s')
     \<and> shares_table s' = shares_table s \<and> heap s' = (heap s)(allocs s := None)"
proof -
  define sh where "sh = (ksmbd_alloc_share e)\<lparr>flags := resp_flags resp, refcount := 1,
     veto_list := [], name := (if alloc_ok e (allocs s + 1) then Some nm else None),
     path := (if alloc_ok e (allocs s + 2) then Some (KSMBD_SHARE_CONFIG_PATH resp) else None),
     path_sz := (if alloc_ok e (allocs s + 2) then length (KSMBD_SHARE_CONFIG_PATH resp)
                 else path_sz (ksmbd_alloc_share e)),
     create_mask := resp_create_mask resp, directory_mask := resp_directory_mask resp,
     force_create_mode := resp_force_create_mode resp,
     force_directory_mode := resp_force_directory_mode resp,
     force_uid := resp_force_uid resp, force_gid := resp_force_gid resp\<rparr>"
  let ?parse = "parse_veto_list (alloc_ok e) (allocs s + 3) sh
      (KSMBD_SHARE_CONFIG_VETO_LIST resp) (resp_veto_list_sz resp)"
  have "\<exists>ret sh' n'. ?parse = Inr (ret, sh', n')"
  proof (cases "resp_veto_list_sz resp = 0")
    case True
    then show ?thesis by (simp add: parse_veto_list_def)
  next
    case False
    with parse_veto_loop_returns [of pats "resp_veto_list_sz resp" "alloc_ok e" "allocs s + 3" sh rest]
      assms(4,5,6) show ?thesis
      by (auto simp: parse_veto_list_def)
  qed
  then obtain ret sh' n' where p: "?parse = Inr (ret, sh', n')" by blast
  from parse_veto_list_shape [OF p]
  have shape: "sh' = sh\<lparr>veto_list := veto_list sh'\<rparr>" by simp
  have ret: "alloc_ok e (allocs s + 1) \<longrightarrow> ret \<noteq> 0"
  proof
    assume "alloc_ok e (allocs s + 1)"
    with assms(7) have ex: "\<exists>i < 2 * length pats. \<not> alloc_ok e (allocs s + 3 + i)" by simp
    then have "pats \<noteq> []" by auto
    with assms(5,6) have nz: "resp_veto_list_sz resp \<noteq> 0"
      by (cases pats) (auto simp: packed_patterns_def)
    from parse_veto_loop_enomem [OF assms(5) ex, of sh rest] assms(4,6) nz p
    show "ret \<noteq> 0" by (auto simp: parse_veto_list_def ENOMEM_def)
  qed
  have "name sh' = name sh" by (subst shape) simp
  then have nm: "name sh' = None \<or> ret \<noteq> 0"
    using ret by (auto simp: sh_def)
  have eq: "share_config_build e s nm resp =
    (let (ret, share) =
           (case path sh' of
              Some p \<Rightarrow>
                if ret = 0 then
                  (let ret = fst (kern_path e p)
                   in if ret \<noteq> 0 then (ret, sh'\<lparr>path := None\<rparr>)
                      else (ret, sh'\<lparr>vfs_path := Some (snd (kern_path e p))\<rparr>))
                else (ret, sh')
            | None \<Rightarrow> (ret, sh'))
     in if ret \<noteq> 0 \<or> name share = None then
          (case kill_share (s\<lparr>allocs := n', heap := (heap s)(allocs s := Some share)\<rparr>) (allocs s) of
             Inl f \<Rightarrow> Inl f
           | Inr s' \<Rightarrow> Inr (None, s'))
        else Inr (Some (allocs s), s\<lparr>allocs := n', heap := (heap s)(allocs s := Some share)\<rparr>))"
    using assms(1-3) p
    by (cases "alloc_ok e (Suc (allocs s))"; cases "alloc_ok e (Suc (Suc (allocs s)))")
      (simp_all add: share_config_build_def Let_def sh_def test_share_config_flag_def)
  show ?thesis
    using nm by (auto simp: eq kill_share_def Let_def split: option.splits)
qed

subsection \<open>Fetching a share\<close>

text \<open>
  C1, as the code has it: for a non-pipe share with a valid response, whose construction
  succeeds up to the path resolution, a failure of \<open>kern_path\<close> fails the request. The
  path is set to NULL only so that \<open>kill_share\<close> does no \<open>path_put\<close>; the share is freed,
  the table is left as it was and NULL is returned.
\<close>

theorem path_failure_fails_request:
  assumes "ksmbd_ipc_share_config_request e nm = Some resp"
    "resp_flags resp \<noteq> KSMBD_SHARE_FLAG_INVALID e"
    "resp_flags resp AND KSMBD_SHARE_FLAG_PIPE e = 0"
    "\<forall>i. alloc_ok e i"
    "KSMBD_SHARE_CONFIG_VETO_LIST resp = packed_patterns pats @ rest"
    "\<forall>p \<in> set pats. NUL \<notin> set p"
    "resp_veto_list_sz resp \<le> int (length (packed_patterns pats)) \<or> [] \<in> set pats"
    "fst (kern_path e (KSMBD_SHARE_CONFIG_PATH resp)) \<noteq> 0"
  shows "\<exists>n. share_config_request e s nm =
     Inr (None, s\<lparr>allocs := n, heap := (heap s)(allocs s := None)\<rparr>)"
proof -
  define sh where "sh = (ksmbd_alloc_share e)\<lparr>flags := resp_flags resp, refcount := 1,
     veto_list := [], name := Some nm, path := Some (KSMBD_SHARE_CONFIG_PATH resp),
     path_sz := length (KSMBD_SHARE_CONFIG_PATH resp),
     create_mask := resp_create_mask resp, directory_mask := resp_directory_mask resp,
     force_create_mode := resp_force_create_mode resp,
     force_directory_mode := resp_force_directory_mode resp,
     force_uid := resp_force_uid resp, force_gid := resp_force_gid resp\<rparr>"
  from parse_veto_list_packed [OF assms(4,6,7), of "allocs s + 3" sh rest] assms(5)
  obtain n where p: "parse_veto_list (alloc_ok e) (allocs s + 3) sh
      (KSMBD_SHARE_CONFIG_VETO_LIST resp) (resp_veto_list_sz resp) =
      Inr (0, sh\<lparr>veto_list := rev (spec_consumed_patterns pats (resp_veto_list_sz resp)) @ veto_list sh\<rparr>, n)"
    by auto
  from assms(1-4,8) p show ?thesis
    by (auto simp: share_config_request_def share_config_build_def Let_def sh_def
        test_share_config_flag_def kill_share_def)
qed

theorem path_failure_fails_request_witness:
  "ksmbd_ipc_share_config_request ex_env_nopath ''data'' = Some ex_response
   \<and> resp_flags ex_response \<noteq> KSMBD_SHARE_FLAG_INVALID ex_env_nopath
   \<and> resp_flags ex_response AND KSMBD_SHARE_FLAG_PIPE ex_env_nopath = 0
   \<and> (\<forall>i. alloc_ok ex_env_nopath i)
   \<and> fst (kern_path ex_env_nopath (KSMBD_SHARE_CONFIG_PATH ex_response)) \<noteq> 0
   \<and> (\<exists>n. share_config_request ex_env_nopath ex_state0 ''data'' =
          Inr (None, ex_state0\<lparr>allocs := n, heap := (heap ex_state0)(allocs ex_state0 := None)\<rparr>))"
  using path_failure_fails_request [of ex_env_nopath "''data''" ex_response
      "[''*.tmp'', ''secret*'']" "''/srv/data'' @ [NUL]" ex_state0]
  by (simp add: ex_defs NUL_def packed_patterns_def)

theorem path_failure_counterexample:
  "ksmbd_ipc_share_config_request ex_env_nopath ''data'' = Some ex_response
   \<and> \<not> test_share_config_flag (ex_zero_share\<lparr>flags := resp_flags ex_response\<rparr>)
         (KSMBD_SHARE_FLAG_PIPE ex_env_nopath)
   \<and> fst (kern_path ex_env_nopath ''/srv/data'') = - 2
   \<and> share_config_request ex_env_nopath ex_state0 ''data'' = Inr (None, ex_state0\<lparr>allocs := 7\<rparr>)"
  by (simp add: ex_defs run_defs)

text \<open>
  Where a failed allocation is reported: \<open>share_config_request\<close> returns the NULL pointer,
  the value it also returns for a share the daemon does not know. That is so when the
  allocation of the share structure fails, for any response, and in the non-pipe branch
  when the copy of the name or an allocation for a veto entry fails (the test at line
  180): the partly built share is freed and the table is left as it was.
\<close>

lemma alloc_failure_returns_null:
  assumes "ksmbd_ipc_share_config_request e nm = Some resp"
    "resp_flags resp \<noteq> KSMBD_SHARE_FLAG_INVALID e"
    "KSMBD_SHARE_CONFIG_VETO_LIST resp = packed_patterns pats @ rest"
    "\<forall>p \<in> set pats. NUL \<notin> set p \<and> p \<noteq> []"
    "resp_veto_list_sz resp = int (length (packed_patterns pats))"
    "ksmbd_ipc_share_config_request e unknown = None"
  shows "(\<not> alloc_ok e (allocs s) \<longrightarrow>
            share_config_request e s nm = Inr (None, s\<lparr>allocs := allocs s + 1\<rparr>))
     \<and> (resp_flags resp AND KSMBD_SHARE_FLAG_PIPE e = 0 \<and> alloc_ok e (allocs s)
          \<and> (\<not> alloc_ok e (allocs s + 1) \<or> (\<exists>i < 2 * length pats. \<not> alloc_ok e (allocs s + 3 + i)))
        \<longrightarrow> (\<exists>s'. share_config_request e s nm = Inr (None, s')
               \<and> shares_table s' = shares_table s \<and> heap s' = (heap s)(allocs s := None)))
     \<and> share_config_request e s unknown = Inr (None, s)"
proof (intro conjI impI)
  assume "\<not> alloc_ok e (allocs s)"
  with assms(1,2) show "share_config_request e s nm = Inr (None, s\<lparr>allocs := allocs s + 1\<rparr>)"
    by (simp add: share_config_request_def share_config_build_def)
next
  assume a: "resp_flags resp AND KSMBD_SHARE_FLAG_PIPE e = 0 \<and> alloc_ok e (allocs s)
      \<and> (\<not> alloc_ok e (allocs s + 1) \<or> (\<exists>i < 2 * length pats. \<not> alloc_ok e (allocs s + 3 + i)))"
  from build_alloc_failure [OF assms(2) _ _ assms(3,4,5), of s nm] a
  obtain s' where "share_config_build e s nm resp = Inr (None, s')"
    "shares_table s' = shares_table s" "heap s' = (heap s)(allocs s := None)"
    by blast
  with assms(1) show "\<exists>s'. share_config_request e s nm = Inr (None, s')
      \<and> shares_table s' = shares_table s \<and> heap s' = (heap s)(allocs s := None)"
    by (simp add: share_config_request_def)
next
  from assms(6) show "share_config_request e s unknown = Inr (None, s)"
    by (simp add: share_config_request_def)
qed

lemma alloc_failure_returns_null_example:
  "ksmbd_ipc_share_config_request ex_env_noveto ''data'' = Some ex_response
   \<and> ksmbd_ipc_share_config_request ex_env_noveto ''nosuch'' = None
   \<and> alloc_ok ex_env_noveto (allocs ex_state0)
   \<and> \<not> alloc_ok ex_env_noveto (allocs ex_state0 + 3 + 0)
   \<and> (\<exists>s'. share_config_request ex_env_noveto ex_state0 ''data'' = Inr (None, s')
         \<and> shares_table s' = shares_table ex_state0
         \<and> heap s' = (heap ex_state0)(allocs ex_state0 := None))
   \<and> share_config_request ex_env_noveto ex_state0 ''nosuch'' = Inr (None, ex_state0)"
proof -
  have "\<exists>i < 2 * length [''*.tmp'', ''secret*'']. \<not> alloc_ok ex_env_noveto (allocs ex_state0 + 3 + i)"
    by (rule exI [of _ 0]) (simp add: ex_defs2)
  with alloc_failure_returns_null [of ex_env_noveto "''data''" ex_response
      "[''*.tmp'', ''secret*'']" "''/srv/data'' @ [NUL]" "''nosuch''" ex_state0]
  show ?thesis
    by (simp add: ex_defs2 NUL_def packed_patterns_def)
qed

lemma share_config_insert_env:
  "share_config_insert (e\<lparr>kern_path := kp, ksmbd_ipc_share_config_request := f\<rparr>) s nm a
     = share_config_insert e s nm a"
proof -
  have h1: "hash_add (e\<lparr>kern_path := kp, ksmbd_ipc_share_config_request := f\<rparr>) = hash_add e"
    by (simp add: hash_add_def fun_eq_iff)
  have h2: "share_name_hash (e\<lparr>kern_path := kp, ksmbd_ipc_share_config_request := f\<rparr>)
      = share_name_hash e"
    by (simp add: share_name_hash_def fun_eq_iff)
  have h3: "share_lookup (e\<lparr>kern_path := kp, ksmbd_ipc_share_config_request := f\<rparr>)
      = share_lookup e"
    by (simp add: share_lookup_def share_name_hash_def fun_eq_iff)
  show ?thesis
    unfolding share_config_insert_def h1 h2 h3 by (rule refl)
qed

lemma share_config_build_pipe:
  assumes "resp_flags resp AND KSMBD_SHARE_FLAG_PIPE e \<noteq> 0"
  shows "share_config_build e s nm resp =
     (if resp_flags resp = KSMBD_SHARE_FLAG_INVALID e then Inr (None, s)
      else if \<not> alloc_ok e (allocs s) then Inr (None, s\<lparr>allocs := allocs s + 1\<rparr>)
      else Inr (Some (allocs s),
             s\<lparr>allocs := allocs s + 2,
               heap := (heap s)(allocs s := Some ((ksmbd_alloc_share e)
                 \<lparr>flags := resp_flags resp, refcount := 1, veto_list := [],
                  name := (if alloc_ok e (allocs s + 1) then Some nm else None)\<rparr>))\<rparr>))"
  using assms by (simp add: share_config_build_def Let_def test_share_config_flag_def)

text \<open>
  C10: for a response with the pipe flag, the request does not depend on \<open>kern_path\<close> nor
  on any field of the response other than the flags: it behaves the same with another
  path resolver and with a response that agrees on the flags only. When the share
  structure is allocated, the share handed to the table has the flags, a reference count
  of 1, an empty veto list and the copy of the name; its other fields are those of the
  memory \<open>ksmbd_alloc\<close> returned.
\<close>

theorem pipe_share_ignores_rest:
  assumes "ksmbd_ipc_share_config_request e nm = Some resp"
    "resp_flags resp AND KSMBD_SHARE_FLAG_PIPE e \<noteq> 0"
  shows "share_config_request
           (e\<lparr>kern_path := kp,
              ksmbd_ipc_share_config_request := (\<lambda>n. Some (other\<lparr>resp_flags := resp_flags resp\<rparr>))\<rparr>) s nm
         = share_config_request e s nm
     \<and> (resp_flags resp \<noteq> KSMBD_SHARE_FLAG_INVALID e \<and> alloc_ok e (allocs s) \<longrightarrow>
          share_config_request e s nm =
            share_config_insert e
              (s\<lparr>allocs := allocs s + 2,
                 heap := (heap s)(allocs s := Some ((ksmbd_alloc_share e)
                   \<lparr>flags := resp_flags resp, refcount := 1, veto_list := [],
                    name := (if alloc_ok e (allocs s + 1) then Some nm else None)\<rparr>))\<rparr>)
              nm (allocs s))"
proof -
  let ?e = "e\<lparr>kern_path := kp,
      ksmbd_ipc_share_config_request := (\<lambda>n. Some (other\<lparr>resp_flags := resp_flags resp\<rparr>))\<rparr>"
  have b: "share_config_build ?e s nm (other\<lparr>resp_flags := resp_flags resp\<rparr>)
      = share_config_build e s nm resp"
    using assms(2)
    by (subst share_config_build_pipe, simp, subst share_config_build_pipe) simp_all
  show ?thesis
    using assms
    by (simp add: share_config_request_def b share_config_insert_env share_config_build_pipe)
qed

theorem pipe_share_ignores_rest_witness:
  "ksmbd_ipc_share_config_request ex_env ''ipc$'' = Some ex_pipe_response
   \<and> resp_flags ex_pipe_response AND KSMBD_SHARE_FLAG_PIPE ex_env \<noteq> 0
   \<and> resp_flags ex_pipe_response \<noteq> KSMBD_SHARE_FLAG_INVALID ex_env
   \<and> alloc_ok ex_env (allocs ex_state0)
   \<and> share_config_request
        (ex_env\<lparr>kern_path := ex_kern_path_fails,
           ksmbd_ipc_share_config_request :=
             (\<lambda>n. Some (ex_zero_response\<lparr>resp_flags := resp_flags ex_pipe_response\<rparr>))\<rparr>)
        ex_state0 ''ipc$''
      = share_config_request ex_env ex_state0 ''ipc$''
   \<and> share_config_request ex_env ex_state0 ''ipc$'' =
       Inr (Some 0, ex_state0\<lparr>allocs := 2,
              heap := (heap ex_state0)(0 := Some (ex_zero_share\<lparr>flags := 0x101, refcount := 1,
                        name := Some ''ipc$''\<rparr>)),
              shares_table := (shares_table ex_state0)(4 := [0])\<rparr>)"
  using pipe_share_ignores_rest [where e = ex_env and nm = "''ipc$''" and resp = ex_pipe_response
      and kp = ex_kern_path_fails and other = ex_zero_response and s = ex_state0]
  by (simp add: ex_defs run_defs)

lemmas bug_defs = ex_alloc_fail_2_def ex_env_nopathdup_def ex_state_noname_def
  ex_pathless_share_def ex_state_pathless_def ex_pipe_share_def

lemma pipe_null_name_is_inserted:
  assumes "ksmbd_ipc_share_config_request e nm = Some resp"
    "resp_flags resp AND KSMBD_SHARE_FLAG_PIPE e \<noteq> 0"
    "resp_flags resp \<noteq> KSMBD_SHARE_FLAG_INVALID e"
    "alloc_ok e (allocs s)" "\<not> alloc_ok e (allocs s + 1)"
    "shares_table s (hash_min e (share_name_hash e nm)) = []"
  shows "\<exists>s'. share_config_request e s nm = Inr (Some (allocs s), s')
     \<and> (\<exists>share. heap s' (allocs s) = Some share \<and> name share = None)
     \<and> shares_table s' (hash_min e (share_name_hash e nm)) = [allocs s]
     \<and> share_lookup e s' nm = Inl NullPointer"
  using assms
  by (simp add: share_config_request_def share_config_build_pipe share_config_insert_def
      share_lookup_def hash_add_def Let_def)

text \<open>
  C5 says that a failed allocation anywhere in the construction, for a pipe or a non-pipe
  response and with the copy of the share name included, makes the fetch discard the
  partial share and report a failure, one that is told apart from an unknown name. The
  code tests the copy of the name in the non-pipe branch only. For the pipe share \<open>ipc$\<close>,
  with the share structure allocated and the copy of the name failing, the request hashes
  the share with a NULL name and returns it; the next lookup of the name in that bucket
  hands the NULL name to \<open>strcmp\<close>, and so does the next get. The same failure for the disk
  share \<open>data\<close> returns NULL, as the claim says. A failed copy of the path is not
  reported either: the disk share is hashed and returned without a path. And the NULL
  returned for a reported failure is what an unknown name returns.
\<close>

theorem pipe_name_alloc_failure_is_hashed:
  "ksmbd_ipc_share_config_request ex_env_noname ''ipc$'' = Some ex_pipe_response
   \<and> test_share_config_flag (ex_zero_share\<lparr>flags := resp_flags ex_pipe_response\<rparr>)
         (KSMBD_SHARE_FLAG_PIPE ex_env_noname)
   \<and> alloc_ok ex_env_noname 0 \<and> \<not> alloc_ok ex_env_noname 1
   \<and> share_config_request ex_env_noname ex_state0 ''ipc$'' = Inr (Some 0, ex_state_noname)
   \<and> heap ex_state_noname 0 = Some (ex_pipe_share\<lparr>name := None\<rparr>)
   \<and> shares_table ex_state_noname 4 = [0]
   \<and> share_lookup ex_env_noname ex_state_noname ''ipc$'' = Inl NullPointer
   \<and> ksmbd_share_config_get ex_env_noname ex_state_noname ''ipc$'' = Inl NullPointer
   \<and> ksmbd_ipc_share_config_request ex_env_noname ''data'' = Some ex_response
   \<and> share_config_request ex_env_noname ex_state0 ''data'' =
       Inr (None, ex_state0\<lparr>allocs := 7, path_puts := [Some 42]\<rparr>)
   \<and> alloc_ok ex_env_nopathdup 0 \<and> alloc_ok ex_env_nopathdup 1 \<and> \<not> alloc_ok ex_env_nopathdup 2
   \<and> share_config_request ex_env_nopathdup ex_state0 ''data'' = Inr (Some 0, ex_state_pathless)
   \<and> path ex_pathless_share = None
   \<and> ksmbd_ipc_share_config_request ex_env_noname ''nosuch'' = None
   \<and> share_config_request ex_env_noname ex_state0 ''nosuch'' = Inr (None, ex_state0)"
  by (simp add: bug_defs ex_defs2 run_defs ksmbd_share_config_get_def)

subsection \<open>What a fetch leaves untouched\<close>

lemma parse_veto_loop_allocs:
  "parse_veto_loop ok n share buf sz = Inr (ret, share', n') \<Longrightarrow> n \<le> n'"
proof (induction ok n share buf sz rule: parse_veto_loop.induct)
  case (1 ok n share veto_buf veto_list_sz)
  show ?case
  proof (cases "veto_list_sz > 0 \<and> ok n \<and> (\<exists>l. strlen veto_buf = Some l \<and> l \<noteq> 0) \<and> ok (n + 1)")
    case True
    then obtain l where l: "strlen veto_buf = Some l" "l \<noteq> 0" by blast
    from True l "1.prems" have
      "parse_veto_loop ok (n + 2) (share\<lparr>veto_list := take l veto_buf # veto_list share\<rparr>)
         (drop (l + 1) veto_buf) (veto_list_sz - (int l + 1)) = Inr (ret, share', n')"
      by (subst (asm) parse_veto_loop.simps) simp
    from "1.IH" [OF _ _ l(1) _ _ this] True l show ?thesis by simp
  next
    case False
    with "1.prems" show ?thesis
      by (subst (asm) parse_veto_loop.simps) (auto split: if_splits option.splits)
  qed
qed

lemma parse_veto_list_allocs:
  "parse_veto_list ok n share buf sz = Inr (ret, share', n') \<Longrightarrow> n \<le> n'"
  using parse_veto_loop_allocs [of ok n share buf sz ret share' n']
  by (auto simp: parse_veto_list_def split: if_splits)

lemma share_config_build_frame:
  assumes "share_config_build e s nm resp = Inr (r, s1)"
  shows "shares_table s1 = shares_table s \<and> scheduled_work s1 = scheduled_work s
    \<and> (\<forall>b. b \<noteq> allocs s \<longrightarrow> heap s1 b = heap s b)
    \<and> allocs s \<le> allocs s1
    \<and> (case r of
          None \<Rightarrow> heap s1 (allocs s) = heap s (allocs s) \<or> heap s1 (allocs s) = None
        | Some a \<Rightarrow> a = allocs s \<and> allocs s < allocs s1
            \<and> (\<exists>sh. heap s1 a = Some sh \<and> refcount sh = 1 \<and> (name sh = Some nm \<or> name sh = None)))"
proof (cases "resp_flags resp \<noteq> KSMBD_SHARE_FLAG_INVALID e \<and> alloc_ok e (allocs s)
     \<and> resp_flags resp AND KSMBD_SHARE_FLAG_PIPE e = 0")
  case False
  with assms show ?thesis
    by (auto simp: share_config_build_def Let_def test_share_config_flag_def split: if_splits)
next
  case True
  define sh where "sh = (ksmbd_alloc_share e)\<lparr>flags := resp_flags resp, refcount := 1,
     veto_list := [], name := (if alloc_ok e (allocs s + 1) then Some nm else None),
     path := (if alloc_ok e (allocs s + 2) then Some (KSMBD_SHARE_CONFIG_PATH resp) else None),
     path_sz := (if alloc_ok e (allocs s + 2) then length (KSMBD_SHARE_CONFIG_PATH resp)
                 else path_sz (ksmbd_alloc_share e)),
     create_mask := resp_create_mask resp, directory_mask := resp_directory_mask resp,
     force_create_mode := resp_force_create_mode resp,
     force_directory_mode := resp_force_directory_mode resp,
     force_uid := resp_force_uid resp, force_gid := resp_force_gid resp\<rparr>"
  let ?parse = "parse_veto_list (alloc_ok e) (allocs s + 3) sh
      (KSMBD_SHARE_CONFIG_VETO_LIST resp) (resp_veto_list_sz resp)"
  have eq: "share_config_build e s nm resp =
    (case ?parse of
       Inl f \<Rightarrow> Inl f
     | Inr (ret, share, n) \<Rightarrow>
        let (ret, share) =
           (case path share of
              Some p \<Rightarrow>
                if ret = 0 then
                  (let ret = fst (kern_path e p)
                   in if ret \<noteq> 0 then (ret, share\<lparr>path := None\<rparr>)
                      else (ret, share\<lparr>vfs_path := Some (snd (kern_path e p))\<rparr>))
                else (ret, share)
            | None \<Rightarrow> (ret, share))
        in if ret \<noteq> 0 \<or> name share = None then
          (case kill_share (s\<lparr>allocs := n, heap := (heap s)(allocs s := Some share)\<rparr>) (allocs s) of
             Inl f \<Rightarrow> Inl f
           | Inr s' \<Rightarrow> Inr (None, s'))
        else Inr (Some (allocs s), s\<lparr>allocs := n, heap := (heap s)(allocs s := Some share)\<rparr>))"
    using True
    by (cases "alloc_ok e (Suc (allocs s))"; cases "alloc_ok e (Suc (Suc (allocs s)))")
      (simp_all add: share_config_build_def Let_def sh_def test_share_config_flag_def)
  from assms eq obtain ret sh' n' where p: "?parse = Inr (ret, sh', n')"
    by (cases ?parse) auto
  from parse_veto_list_shape [OF p] have shape: "sh' = sh\<lparr>veto_list := veto_list sh'\<rparr>" by simp
  have f: "name sh' = name sh" "refcount sh' = refcount sh"
    by (subst shape, simp)+
  from parse_veto_list_allocs [OF p] have n: "allocs s + 3 \<le> n'" .
  from assms show ?thesis
    unfolding eq p using f n
    by (auto simp: Let_def kill_share_def sh_def split: option.splits if_splits)
qed



lemma share_config_insert_frame:
  assumes "share_config_insert e s nm a = Inr (r, s2)"
    "heap s b = Some shb" "refcount shb = 0" "b \<noteq> a"
  shows "heap s2 b = Some shb \<and> r \<noteq> Some b"
  using assms
  by (auto simp: share_config_insert_def get_share_config_def kill_share_def hash_add_def
      split: sum.splits option.splits if_splits)

lemma share_config_request_frame:
  assumes "share_config_request e s nm = Inr (r, s')" "heap s (allocs s) = None"
    "heap s b = Some shb" "refcount shb = 0"
  shows "heap s' b = Some shb \<and> r \<noteq> Some b"
proof (cases "ksmbd_ipc_share_config_request e nm")
  case None
  with assms show ?thesis by (auto simp: share_config_request_def)
next
  case (Some resp)
  with assms(1) obtain r1 s1 where b: "share_config_build e s nm resp = Inr (r1, s1)"
    by (cases "share_config_build e s nm resp") (auto simp: share_config_request_def)
  from assms(2,3) have ne: "b \<noteq> allocs s" by auto
  from share_config_build_frame [OF b] ne assms(3)
  have h1: "heap s1 b = Some shb" and r1: "r1 = None \<or> r1 = Some (allocs s)"
    by (auto split: option.splits)
  show ?thesis
  proof (cases r1)
    case None
    with assms(1) Some b h1 show ?thesis by (auto simp: share_config_request_def)
  next
    case (Some a)
    with r1 have a: "a = allocs s" by simp
    from assms(1) \<open>ksmbd_ipc_share_config_request e nm = Some resp\<close> b Some
    have "share_config_insert e s1 nm a = Inr (r, s')"
      by (simp add: share_config_request_def)
    from share_config_insert_frame [OF this h1 assms(4)] ne a show ?thesis by simp
  qed
qed

lemma strtolower_map: "strtolower lower nm = map lower nm"
  by (induction nm) simp_all

lemma ksmbd_share_config_get_name:
  "ksmbd_share_config_get e s nm = Inr (r, s', nm') \<Longrightarrow> nm' = map (tolower e) nm"
  by (auto simp: ksmbd_share_config_get_def Let_def strtolower_map
      split: sum.splits option.splits prod.splits)

lemma ksmbd_share_config_get_frame:
  assumes "ksmbd_share_config_get e s nm = Inr (r, s', nm')" "heap s (allocs s) = None"
    "heap s b = Some shb" "refcount shb = 0"
  shows "heap s' b = Some shb \<and> r \<noteq> Some b"
proof -
  let ?nm = "strtolower (tolower e) nm"
  from assms(1) obtain lk where lk: "share_lookup e s ?nm = Inr lk"
    by (cases "share_lookup e s ?nm") (auto simp: ksmbd_share_config_get_def Let_def)
  let ?g = "case lk of Some l \<Rightarrow> get_share_config s l | None \<Rightarrow> Inr (None, s)"
  from assms(1) lk obtain r0 s0 where g: "?g = Inr (r0, s0)"
    by (cases ?g) (auto simp: ksmbd_share_config_get_def Let_def)
  show ?thesis
  proof (cases r0)
    case (Some l)
    with assms lk g show ?thesis
      by (auto simp: ksmbd_share_config_get_def Let_def get_share_config_def
          split: option.splits if_splits)
  next
    case None
    with g have "s0 = s"
      by (auto simp: get_share_config_def split: option.splits if_splits)
    with assms(1) lk g None obtain "share_config_request e s ?nm = Inr (r, s')"
      by (auto simp: ksmbd_share_config_get_def Let_def split: sum.splits)
    from share_config_request_frame [OF this assms(2-4)] show ?thesis .
  qed
qed

lemma ksmbd_share_config_get_zero_miss:
  assumes "share_lookup e s (strtolower (tolower e) nm) = Inr (Some l)"
    "heap s l = Some sh" "refcount sh = 0"
  shows "ksmbd_share_config_get e s nm =
     (case share_config_request e s (strtolower (tolower e) nm) of
        Inl f \<Rightarrow> Inl f
      | Inr (r, s') \<Rightarrow> Inr (r, s', strtolower (tolower e) nm))"
  using assms by (simp add: ksmbd_share_config_get_def Let_def get_share_config_def)

text \<open>
  C9: \<open>strtolower\<close> replaces every character of the caller's buffer by its \<open>tolower\<close>;
  whenever \<open>ksmbd_share_config_get\<close> returns, the buffer holds the lower-cased name, and
  the lookup and the request were made with it: where \<open>tolower\<close> leaves lower-cased
  characters alone, the call on the original spelling is the call on the lower-cased one.
\<close>

theorem get_lowercases_caller_name:
  "strtolower (tolower e) nm = map (tolower e) nm
   \<and> (\<forall>r s' nm'. ksmbd_share_config_get e s nm = Inr (r, s', nm') \<longrightarrow> nm' = map (tolower e) nm)
   \<and> ((\<forall>c \<in> set nm. tolower e (tolower e c) = tolower e c) \<longrightarrow>
        ksmbd_share_config_get e s (map (tolower e) nm) = ksmbd_share_config_get e s nm)"
proof (intro conjI allI impI)
  show "strtolower (tolower e) nm = map (tolower e) nm" by (rule strtolower_map)
next
  fix r s' nm'
  assume "ksmbd_share_config_get e s nm = Inr (r, s', nm')"
  then show "nm' = map (tolower e) nm" by (rule ksmbd_share_config_get_name)
next
  assume "\<forall>c \<in> set nm. tolower e (tolower e c) = tolower e c"
  then have "strtolower (tolower e) (map (tolower e) nm) = strtolower (tolower e) nm"
    by (simp add: strtolower_map)
  then show "ksmbd_share_config_get e s (map (tolower e) nm) = ksmbd_share_config_get e s nm"
    by (simp add: ksmbd_share_config_get_def)
qed

theorem get_lowercases_caller_name_witness:
  "strtolower (tolower ex_env) ''Data'' = ''data''
   \<and> map_sum id (snd \<circ> snd) (ksmbd_share_config_get ex_env ex_state0 ''Data'') = Inr ''data''
   \<and> map_sum id fst (ksmbd_share_config_get ex_env ex_state0 ''Data'') = Inr (Some 0)
   \<and> ksmbd_share_config_get ex_env ex_state0 (map (tolower ex_env) ''Data'')
       = ksmbd_share_config_get ex_env ex_state0 ''Data''"
  using get_lowercases_caller_name [of ex_env "''Data''" ex_state0]
  by (simp add: ksmbd_share_config_get_def ex_defs run_defs)

text \<open>
  C3: when the lookup of \<open>ksmbd_share_config_get\<close> finds an entry whose reference count
  is 0, \<open>__get_share_config\<close> returns NULL and changes nothing, and the call goes on as
  for a miss, with \<open>share_config_request\<close>. Whatever the call does, a share whose count
  is 0 before it is the same share, with count 0, after it, and is not the share returned
  (the allocator handing out unused memory).
\<close>

theorem zero_refcount_lookup_is_miss:
  "(share_lookup e s (strtolower (tolower e) nm) = Inr (Some l) \<and> heap s l = Some sh
      \<and> refcount sh = 0 \<longrightarrow>
        get_share_config s l = Inr (None, s)
      \<and> ksmbd_share_config_get e s nm =
          (case share_config_request e s (strtolower (tolower e) nm) of
             Inl f \<Rightarrow> Inl f
           | Inr (r, s') \<Rightarrow> Inr (r, s', strtolower (tolower e) nm)))
   \<and> (ksmbd_share_config_get e s nm = Inr (r, s', nm') \<and> heap s (allocs s) = None
      \<and> heap s b = Some shb \<and> refcount shb = 0 \<longrightarrow>
        heap s' b = Some shb \<and> r \<noteq> Some b)"
proof (intro conjI impI)
  assume a: "share_lookup e s (strtolower (tolower e) nm) = Inr (Some l) \<and> heap s l = Some sh
      \<and> refcount sh = 0"
  then show "get_share_config s l = Inr (None, s)"
    by (simp add: get_share_config_def)
  from a show "ksmbd_share_config_get e s nm =
          (case share_config_request e s (strtolower (tolower e) nm) of
             Inl f \<Rightarrow> Inl f
           | Inr (r, s') \<Rightarrow> Inr (r, s', strtolower (tolower e) nm))"
    using ksmbd_share_config_get_zero_miss [of e s nm l sh] by simp
next
  assume a: "ksmbd_share_config_get e s nm = Inr (r, s', nm') \<and> heap s (allocs s) = None
      \<and> heap s b = Some shb \<and> refcount shb = 0"
  with ksmbd_share_config_get_frame [of e s nm r s' nm' b shb]
  show "heap s' b = Some shb" "r \<noteq> Some b" by simp_all
qed

theorem zero_refcount_lookup_is_miss_witness:
  "share_lookup ex_env ex_state_dying (strtolower (tolower ex_env) ''Data'') = Inr (Some 0)
   \<and> heap ex_state_dying 0 = Some ex_dying_share \<and> refcount ex_dying_share = 0
   \<and> heap ex_state_dying (allocs ex_state_dying) = None
   \<and> get_share_config ex_state_dying 0 = Inr (None, ex_state_dying)
   \<and> map_sum id fst (ksmbd_share_config_get ex_env ex_state_dying ''Data'') = Inr (Some 7)
   \<and> map_sum id (\<lambda>r. heap (fst (snd r)) 0) (ksmbd_share_config_get ex_env ex_state_dying ''Data'')
       = Inr (Some ex_dying_share)
   \<and> map_sum id (\<lambda>r. shares_table (fst (snd r)) 4) (ksmbd_share_config_get ex_env ex_state_dying ''Data'')
       = Inr [7, 0]"
  using zero_refcount_lookup_is_miss [of ex_env ex_state_dying "''Data''" 0 ex_dying_share]
  by (simp add: ksmbd_share_config_get_def ex_state_dying_def ex_dying_share_def ex_forced_share_def
      ex_defs run_defs)

subsection \<open>The table under concurrent callers\<close>
























































lemma get_call_is_run:
  assumes "ksmbd_share_config_get e s raw = Inr (r, s', nm')" "t < N" "T t = Idle"
  shows "(get_step e (strtolower (tolower e) raw) N)\<^sup>*\<^sup>* (s, T) (s', T(t := Returned r))"
proof -
  let ?nm = "strtolower (tolower e) raw"
  let ?R = "get_step e ?nm N"
  from assms(1) obtain lk where lk: "share_lookup e s ?nm = Inr lk"
    by (cases "share_lookup e s ?nm") (auto simp: ksmbd_share_config_get_def Let_def)
  let ?g = "case lk of Some l \<Rightarrow> get_share_config s l | None \<Rightarrow> Inr (None, s)"
  from assms(1) lk obtain r0 s0 where g: "?g = Inr (r0, s0)"
    by (cases ?g) (auto simp: ksmbd_share_config_get_def Let_def)
  from get_lookup [of t N T e s ?nm lk r0 s0] assms(2,3) lk g
  have s1: "?R (s, T) (s0, T(t := (case r0 of Some l \<Rightarrow> Returned (Some l) | None \<Rightarrow> Missed)))"
    by simp
  show ?thesis
  proof (cases r0)
    case (Some l)
    with assms(1) lk g have "r = Some l" "s' = s0"
      by (auto simp: ksmbd_share_config_get_def Let_def)
    with s1 Some show ?thesis by (auto intro: r_into_rtranclp)
  next
    case None
    let ?T1 = "T(t := Missed)"
    from s1 None have s1': "?R (s, T) (s0, ?T1)" by simp
    from assms(1) lk g None have req: "share_config_request e s0 ?nm = Inr (r, s')"
      by (auto simp: ksmbd_share_config_get_def Let_def split: sum.splits)
    have T1: "?T1 t = Missed" by simp
    show ?thesis
    proof (cases "ksmbd_ipc_share_config_request e ?nm")
      case None
      with req have "r = None" "s' = s0" by (auto simp: share_config_request_def)
      with get_unknown [of ?T1 t e ?nm N s0] None have "?R (s0, ?T1) (s', T(t := Returned r))"
        by simp
      with s1' show ?thesis by (rule converse_rtranclp_into_rtranclp [OF _ r_into_rtranclp])
    next
      case (Some resp)
      with req obtain rb sb where b: "share_config_build e s0 ?nm resp = Inr (rb, sb)"
        by (cases "share_config_build e s0 ?nm resp") (auto simp: share_config_request_def)
      from get_build [of ?T1 t e ?nm resp s0 rb sb N] Some b
      have s2: "?R (s0, ?T1) (sb, T(t := (case rb of Some a \<Rightarrow> Built a | None \<Rightarrow> Returned None)))"
        by simp
      show ?thesis
      proof (cases rb)
        case None
        with req Some b have "r = None" "s' = sb" by (auto simp: share_config_request_def)
        with s2 None have "?R (s0, ?T1) (s', T(t := Returned r))" by simp
        with s1' show ?thesis by (rule converse_rtranclp_into_rtranclp [OF _ r_into_rtranclp])
      next
        case (Some a)
        with req \<open>ksmbd_ipc_share_config_request e ?nm = Some resp\<close> b
        have "share_config_insert e sb ?nm a = Inr (r, s')"
          by (simp add: share_config_request_def)
        from get_insert [of "T(t := Built a)" t a e sb ?nm r s' N] this
        have s3: "?R (sb, T(t := Built a)) (s', T(t := Returned r))" by simp
        from s2 Some have "?R (s0, ?T1) (sb, T(t := Built a))" by simp
        with s1' have "?R\<^sup>*\<^sup>* (s, T) (sb, T(t := Built a))"
          by (rule converse_rtranclp_into_rtranclp [OF _ r_into_rtranclp])
        then show ?thesis using s3 by (rule rtranclp.rtrancl_into_rtrancl)
      qed
    qed
  qed
qed












end
